theory Spec2Isabelle
  imports Complex_Main
begin

section \<open>The panorama viewer of \<open>app.js\<close>\<close>

text \<open>
  The program is one script: a handful of module-level variables, a keyboard table, an
  image scaler, a pan controller (\<open>update\<close>), a compositor (\<open>render\<close>) and a frame
  driver (\<open>startAnimation\<close>, \<open>stopAnimation\<close>, \<open>animate\<close>).

  Conventions of the embedding.
  \<^item> In the pan controller, the compositor and the frame driver a JavaScript number is a
    \<^typ>\<open>real\<close>: a finite number, with exact arithmetic; \<open>NaN\<close> and the infinities do not
    occur there. The image scaler rounds a quotient and products to whole pixels, so there
    the arithmetic is that of IEEE 754 doubles (round to nearest, ties to even, overflow to
    infinity, \<open>NaN\<close>), built on the reals below. The sign of zero is not modelled.
  \<^item> \<open>throw\<close> is a value: a function returning a number returns \<open>error + real\<close>, a
    procedure on the module's variables returns \<open>error option \<times> state\<close>, the state being
    the variables as the procedure left them (also when it threw).
  \<^item> The host (canvas contexts, the animation-frame queue) is part of the state: the calls
    made on drawing contexts are appended to a log, the pending frame requests are a list
    of handles. Pixel contents are not modelled. A canvas stores an assigned dimension as
    the host does: converted to an unsigned 32-bit integer, and replaced by the default
    size when that exceeds 2147483647.
\<close>

subsection \<open>Errors, \<open>assert\<close> and \<open>clamp\<close>\<close>

datatype error =
  Error string    \<comment> \<open>\<open>throw new Error(message)\<close>\<close>
| TypeError       \<comment> \<open>a property read on \<open>undefined\<close> or \<open>null\<close>\<close>

definition assert :: "bool \<Rightarrow> error + unit" where
  "assert condition = (if \<not> condition then Inl (Error ''Assertion failed!'') else Inr ())"

definition clamp :: "real \<Rightarrow> real \<Rightarrow> real \<Rightarrow> error + real" where
  "clamp val minValue maxValue =
     (case assert (minValue \<le> maxValue) of
        Inl e \<Rightarrow> Inl e
      | Inr _ \<Rightarrow>
          if val < minValue then Inr minValue
          else if val > maxValue then Inr maxValue
          else Inr val)"

subsection \<open>Doubles and canvas dimensions\<close>

text \<open>A double: a finite value, an infinity or \<open>NaN\<close>.\<close>

datatype number = Num real | PosInf | NegInf | NaN

text \<open>
  Rounding a real to the nearest double. A positive real is brought to the form \<open>m * u\<close>
  with \<open>u\<close> a power of two and \<open>2^52 \<le> m < 2^53\<close>, or with \<open>u = 2^-1074\<close> and a smaller \<open>m\<close>
  for a subnormal; \<open>m\<close> is rounded to an integer, ties going to the even one; a result of
  \<open>2^1024\<close> or more is an infinity.
\<close>

definition round_half_even :: "real \<Rightarrow> int" where
  "round_half_even m =
     (let n = \<lfloor>m\<rfloor>; r = m - of_int n
      in if r < 1 / 2 then n
         else if 1 / 2 < r then n + 1
         else if even n then n else n + 1)"

function scale_down :: "real \<Rightarrow> real \<Rightarrow> real \<times> real" where
  "scale_down m u = (if 2 ^ 53 \<le> m then scale_down (m / 2) (u * 2) else (m, u))"
  by pat_completeness auto
termination
proof (relation "measure (\<lambda>(m, u). nat \<lceil>m\<rceil>)")
  show "wf (measure (\<lambda>(m, u). nat \<lceil>m\<rceil>))"
    by simp
next
  fix m u :: real
  assume big: "2 ^ 53 \<le> m"
  then have "m / 2 + 1 \<le> m"
    by simp
  moreover have "of_int \<lceil>m / 2\<rceil> < m / 2 + 1"
    by linarith
  ultimately have "real_of_int \<lceil>m / 2\<rceil> < of_int \<lceil>m\<rceil>"
    by linarith
  then have "\<lceil>m / 2\<rceil> < \<lceil>m\<rceil>"
    by linarith
  moreover have "0 < \<lceil>m\<rceil>"
    using big by (simp add: ceiling_less_iff less_ceiling_iff)
  ultimately show "((m / 2, u * 2), (m, u)) \<in> measure (\<lambda>(m, u). nat \<lceil>m\<rceil>)"
    by simp
qed

function scale_up :: "real \<Rightarrow> real \<Rightarrow> int \<Rightarrow> real \<times> real" where
  "scale_up m u e =
     (if m < 2 ^ 52 \<and> - 1074 < e then scale_up (m * 2) (u / 2) (e - 1) else (m, u))"
  by pat_completeness auto
termination
  by (relation "measure (\<lambda>(m, u, e). nat (e + 1074))") auto

definition round_pos :: "real \<Rightarrow> real" where
  "round_pos a =
     (let (m, u) = (if 2 ^ 53 \<le> a then scale_down a 1 else scale_up a 1 0)
      in of_int (round_half_even m) * u)"

definition to_double :: "real \<Rightarrow> number" where
  "to_double x =
     (if x = 0 then Num 0
      else
        let y = round_pos \<bar>x\<bar>
        in if 2 ^ 1024 \<le> y then (if 0 < x then PosInf else NegInf)
           else Num (if 0 < x then y else - y))"


text \<open>
  The operators of the scaler. The operands of the division are dimensions read from the
  host, hence finite; a zero divisor gives an infinity, or \<open>NaN\<close> for \<open>0 / 0\<close>.
  \<open>Math.round\<close> rounds halves up, as \<^const>\<open>round\<close> does, and leaves infinities and \<open>NaN\<close>.
\<close>

definition signed_infinity :: "real \<Rightarrow> number" where
  "signed_infinity sg = (if sg = 0 then NaN else if 0 < sg then PosInf else NegInf)"

definition js_div :: "real \<Rightarrow> real \<Rightarrow> number" where
  "js_div a b = (if b = 0 then signed_infinity a else to_double (a / b))"

fun js_mul :: "number \<Rightarrow> number \<Rightarrow> number" where
  "js_mul NaN y = NaN"
| "js_mul x NaN = NaN"
| "js_mul (Num a) (Num b) = to_double (a * b)"
| "js_mul (Num a) PosInf = signed_infinity a"
| "js_mul (Num a) NegInf = signed_infinity (- a)"
| "js_mul PosInf (Num b) = signed_infinity b"
| "js_mul NegInf (Num b) = signed_infinity (- b)"
| "js_mul PosInf PosInf = PosInf"
| "js_mul PosInf NegInf = NegInf"
| "js_mul NegInf PosInf = NegInf"
| "js_mul NegInf NegInf = PosInf"

fun js_round :: "number \<Rightarrow> number" where
  "js_round (Num x) = Num (of_int (round x))"
| "js_round v = v"

text \<open>
  Assigning to \<open>width\<close> or \<open>height\<close> of a canvas: the value is converted to an unsigned
  32-bit integer (truncated, taken modulo \<open>2^32\<close>; 0 for an infinity or \<open>NaN\<close>), and the
  canvas takes its default size, 300 by 150, when the result exceeds 2147483647.
  \<open>canvas_can_hold\<close> says that a value is one a canvas stores unchanged when it is whole.
\<close>

definition to_uint32 :: "number \<Rightarrow> int" where
  "to_uint32 v =
     (case v of
        Num x \<Rightarrow> (if 0 \<le> x then \<lfloor>x\<rfloor> else \<lceil>x\<rceil>) mod 2 ^ 32
      | _ \<Rightarrow> 0)"

definition dom_dimension :: "real \<Rightarrow> number \<Rightarrow> real" where
  "dom_dimension default_size v =
     (let n = to_uint32 v
      in if n \<le> 2147483647 then of_int n else default_size)"

definition canvas_can_hold :: "number \<Rightarrow> bool" where
  "canvas_can_hold v = (case v of Num x \<Rightarrow> 0 \<le> x \<and> x \<le> 2147483647 | _ \<Rightarrow> False)"

subsection \<open>Module state\<close>

text \<open>An image element or a canvas, as far as the script reads it: its pixel dimensions.\<close>

record raster =
  width :: real
  height :: real

text \<open>The surfaces that drawing calls name: the three source images and the four canvases.\<close>

datatype surface =
  BackgroundImage | ForegroundImage | BorderImage
| BackgroundCanvas | ForegroundCanvas | BorderCanvas
| Canvas

text \<open>
  A call on the 2D context of the canvas \<open>target\<close>: an assignment to a context property,
  \<open>fillRect\<close>, and the three- and nine-argument forms of \<open>drawImage\<close>.
\<close>

datatype ctx_call =
  SetImageSmoothingQuality (target: surface) string
| SetFillStyle (target: surface) string
| FillRect (target: surface) real real real real
| DrawImage (target: surface) surface real real
| DrawImageRect (target: surface) surface real real real real real real real real

record state =
  canvas :: "raster option"            \<comment> \<open>\<open>let canvas\<close>: undefined until \<open>main\<close> binds it\<close>
  backgroundImage :: "raster option"
  backgroundCanvas :: raster
  foregroundImage :: "raster option"
  foregroundCanvas :: raster
  borderImage :: "raster option"
  borderCanvas :: raster
  imageScale :: number
  ready :: bool
  animating :: bool
  imageOffsetX :: real
  animationRequestID :: "nat option"   \<comment> \<open>undefined until the first request\<close>
  mouse_x :: real
  mouse_y :: real
  previousTime :: real
  g_keys :: "nat \<rightharpoonup> bool"
  \<comment> \<open>the host\<close>
  ctx_calls :: "ctx_call list"         \<comment> \<open>calls made on drawing contexts, oldest first\<close>
  smoothingQuality :: bool             \<comment> \<open>whether contexts have \<open>imageSmoothingQuality\<close>\<close>
  frameRequests :: "nat list"          \<comment> \<open>handles of the pending animation-frame callbacks\<close>
  lastHandle :: nat                    \<comment> \<open>the host's animation-frame callback identifier\<close>

definition panningSpeed :: real where
  "panningSpeed = 800"

subsection \<open>Keyboard\<close>

definition KEY_ARROW_LEFT :: nat where "KEY_ARROW_LEFT = 37"
definition KEY_ARROW_UP :: nat where "KEY_ARROW_UP = 38"
definition KEY_ARROW_RIGHT :: nat where "KEY_ARROW_RIGHT = 39"
definition KEY_ARROW_DOWN :: nat where "KEY_ARROW_DOWN = 40"

definition KEY_A :: nat where "KEY_A = 65"
definition KEY_W :: nat where "KEY_W = 87"
definition KEY_D :: nat where "KEY_D = 68"
definition KEY_S :: nat where "KEY_S = 83"

definition onkeydown :: "nat \<Rightarrow> state \<Rightarrow> state" where
  "onkeydown keyCode s = s\<lparr>g_keys := (g_keys s)(keyCode \<mapsto> True)\<rparr>"

definition onkeyup :: "nat \<Rightarrow> state \<Rightarrow> state" where
  "onkeyup keyCode s = s\<lparr>g_keys := (g_keys s)(keyCode \<mapsto> False)\<rparr>"

text \<open>\<open>!!g_keys[keyCode]\<close>: a code never written reads \<open>undefined\<close>, which is falsy.\<close>

definition isKeyDown :: "(nat \<rightharpoonup> bool) \<Rightarrow> nat \<Rightarrow> bool" where
  "isKeyDown keys keyCode = (case keys keyCode of None \<Rightarrow> False | Some b \<Rightarrow> b)"

fun isOneKeyDown :: "(nat \<rightharpoonup> bool) \<Rightarrow> nat list \<Rightarrow> bool" where
  "isOneKeyDown keys [] = False"
| "isOneKeyDown keys (keyCode # keyCodes) =
     (if isKeyDown keys keyCode then True else isOneKeyDown keys keyCodes)"

subsection \<open>The host's animation-frame queue\<close>

text \<open>
  \<open>requestAnimationFrame\<close> issues the next handle and queues the callback (always
  \<open>animate\<close>) under it; \<open>cancelAnimationFrame\<close> removes the callback queued under a handle
  and ignores a handle that is not pending. An undefined argument is converted to the handle
  \<open>0\<close>.
\<close>

definition requestAnimationFrame :: "state \<Rightarrow> nat \<times> state" where
  "requestAnimationFrame s =
     (let h = Suc (lastHandle s)
      in (h, s\<lparr>frameRequests := frameRequests s @ [h], lastHandle := h\<rparr>))"

definition cancelAnimationFrame :: "nat option \<Rightarrow> state \<Rightarrow> state" where
  "cancelAnimationFrame requestID s =
     (let h = (case requestID of None \<Rightarrow> 0 | Some i \<Rightarrow> i)
      in s\<lparr>frameRequests := removeAll h (frameRequests s)\<rparr>)"

subsection \<open>Image scaler\<close>

text \<open>
  \<open>resizeImage(source, target, scale)\<close>: the result is the target canvas with its new
  dimensions and the calls made on its context.
\<close>

definition resizeImage ::
  "surface \<Rightarrow> raster option \<Rightarrow> surface \<Rightarrow> raster \<Rightarrow> number \<Rightarrow> bool \<Rightarrow> error + raster \<times> ctx_call list"
where
  "resizeImage img source tgt target_canvas scale quality =
     (case source of
        None \<Rightarrow> Inl TypeError
      | Some src \<Rightarrow>
          let t1 = target_canvas
                 \<lparr>width := dom_dimension 300 (js_round (js_mul scale (Num (width src))))\<rparr>;
              t2 = t1\<lparr>height := dom_dimension 150 (js_round (js_mul scale (Num (height src))))\<rparr>;
              hint = (if quality then [SetImageSmoothingQuality tgt ''high''] else []);
              sx = 0; sy = 0; sWidth = width src; sHeight = height src;
              dx = 0; dy = 0; dWidth = width t2; dHeight = height t2
          in Inr (t2, hint @ [DrawImageRect tgt img sx sy sWidth sHeight dx dy dWidth dHeight]))"

text \<open>\<open>resizeImages\<close>; the literal \<open>1.8\<close> is the double nearest to it.\<close>

definition resizeImages :: "state \<Rightarrow> error option \<times> state" where
  "resizeImages s =
     (case resizeImage BackgroundImage (backgroundImage s) BackgroundCanvas (backgroundCanvas s)
             (imageScale s) (smoothingQuality s) of
        Inl e \<Rightarrow> (Some e, s)
      | Inr (bg, calls1) \<Rightarrow>
          let s1 = s\<lparr>backgroundCanvas := bg, ctx_calls := ctx_calls s @ calls1\<rparr> in
          case resizeImage ForegroundImage (foregroundImage s1) ForegroundCanvas (foregroundCanvas s1)
                 (imageScale s1) (smoothingQuality s1) of
            Inl e \<Rightarrow> (Some e, s1)
          | Inr (fg, calls2) \<Rightarrow>
              let s2 = s1\<lparr>foregroundCanvas := fg, ctx_calls := ctx_calls s1 @ calls2\<rparr> in
              case resizeImage BorderImage (borderImage s2) BorderCanvas (borderCanvas s2)
                     (js_mul (imageScale s2) (to_double 1.8)) (smoothingQuality s2) of
                Inl e \<Rightarrow> (Some e, s2)
              | Inr (bd, calls3) \<Rightarrow>
                  (None, s2\<lparr>borderCanvas := bd, ctx_calls := ctx_calls s2 @ calls3\<rparr>))"

text \<open>
  \<open>resizeCanvas\<close>; \<open>rect\<close> is what \<open>canvas.getBoundingClientRect()\<close> returns. The scale is
  computed from the height that the canvas has stored.
\<close>

definition resizeCanvas :: "raster \<Rightarrow> state \<Rightarrow> error option \<times> state" where
  "resizeCanvas rect s =
     (if \<not> ready s then (None, s)
      else case canvas s of
        None \<Rightarrow> (Some TypeError, s)
      | Some cv \<Rightarrow>
          let cv1 = cv\<lparr>width := dom_dimension 300 (Num (width rect)),
                       height := dom_dimension 150 (Num (height rect))\<rparr>;
              s1 = s\<lparr>canvas := Some cv1\<rparr>
          in case foregroundImage s1 of
               None \<Rightarrow> (Some TypeError, s1)
             | Some fg \<Rightarrow>
                 resizeImages (s1\<lparr>imageScale := js_div (height cv1) (height fg)\<rparr>))"

subsection \<open>Pan controller\<close>

definition update :: "real \<Rightarrow> state \<Rightarrow> error option \<times> state" where
  "update dt s =
     (let imageMovement = panningSpeed * dt / 1000 in
      case canvas s of
        None \<Rightarrow> (Some TypeError, s)
      | Some cv \<Rightarrow>
          let canvasWidth = width cv;
              imageWidth = width (foregroundCanvas s)
          in case assert (canvasWidth < imageWidth) of
               Inl e \<Rightarrow> (Some e, s)
             | Inr _ \<Rightarrow>
                 let limit = imageWidth - canvasWidth in
                 if isOneKeyDown (g_keys s) [KEY_ARROW_LEFT, KEY_A] then
                   (case clamp (imageOffsetX s - imageMovement) 0 limit of
                      Inl e \<Rightarrow> (Some e, s)
                    | Inr v \<Rightarrow> (None, s\<lparr>imageOffsetX := v\<rparr>))
                 else if isOneKeyDown (g_keys s) [KEY_ARROW_RIGHT, KEY_D] then
                   (case clamp (imageOffsetX s + imageMovement) 0 limit of
                      Inl e \<Rightarrow> (Some e, s)
                    | Inr v \<Rightarrow> (None, s\<lparr>imageOffsetX := v\<rparr>))
                 else (None, s))"

subsection \<open>Compositor\<close>

text \<open>The frame-rate text under \<open>if (false)\<close> is never drawn and has no counterpart here.\<close>

definition render :: "real \<Rightarrow> state \<Rightarrow> error option \<times> state" where
  "render dt s =
     (if \<not> ready s then (None, s)
      else case canvas s of
        None \<Rightarrow> (Some TypeError, s)
      | Some cv \<Rightarrow>
          let fill = [SetFillStyle Canvas ''#000'', FillRect Canvas 0 0 (width cv) (height cv)];
              borderWidth = width (borderCanvas s);
              borderHeight = height (borderCanvas s);
              foreground = [DrawImage Canvas ForegroundCanvas (- imageOffsetX s) 0];
              backgroundWidth = borderWidth * 0.937;
              backgroundHeight = borderHeight * 0.937;
              lens = [DrawImageRect Canvas BackgroundCanvas
                        (mouse_x s + imageOffsetX s - backgroundWidth / 2)
                        (mouse_y s - backgroundHeight / 2)
                        backgroundWidth backgroundHeight
                        (mouse_x s - backgroundWidth / 2)
                        (mouse_y s - backgroundHeight / 2)
                        backgroundWidth backgroundHeight];
              border = [DrawImage Canvas BorderCanvas
                          (mouse_x s - borderWidth / 2) (mouse_y s - borderHeight / 2)]
          in (None, s\<lparr>ctx_calls := ctx_calls s @ fill @ foreground @ lens @ border\<rparr>))"

subsection \<open>Frame driver\<close>

definition step :: "real \<Rightarrow> state \<Rightarrow> error option \<times> state" where
  "step dt s =
     (case update dt s of
        (Some e, s1) \<Rightarrow> (Some e, s1)
      | (None, s1) \<Rightarrow> render dt s1)"

definition animate :: "real \<Rightarrow> state \<Rightarrow> error option \<times> state" where
  "animate currentTime s =
     (if \<not> animating s then (None, s)
      else
        let dt = max (currentTime - previousTime s) (1000 / 60);
            s1 = s\<lparr>previousTime := currentTime\<rparr>
        in case step dt s1 of
             (Some e, s2) \<Rightarrow> (Some e, s2)
           | (None, s2) \<Rightarrow>
               let (h, s3) = requestAnimationFrame s2
               in (None, s3\<lparr>animationRequestID := Some h\<rparr>))"

definition stopAnimation :: "state \<Rightarrow> state" where
  "stopAnimation s =
     (let s1 = s\<lparr>animating := False\<rparr>
      in cancelAnimationFrame (animationRequestID s1) s1)"

definition startAnimation :: "state \<Rightarrow> error option \<times> state" where
  "startAnimation s =
     (if animating s then (None, s)
      else
        let s1 = s\<lparr>animating := True\<rparr>;
            s2 = s1\<lparr>previousTime := 0\<rparr>
        in animate (previousTime s2) s2)"

text \<open>
  The part of \<open>animate\<close> that follows the call of \<open>step\<close>, named for stating what
  \<open>animate\<close> hands to \<open>step\<close>: the next frame is requested unless \<open>step\<close> threw.
\<close>

definition request_next_frame :: "error option \<times> state \<Rightarrow> error option \<times> state" where
  "request_next_frame r =
     (case r of
        (Some e, s2) \<Rightarrow> (Some e, s2)
      | (None, s2) \<Rightarrow>
          let (h, s3) = requestAnimationFrame s2
          in (None, s3\<lparr>animationRequestID := Some h\<rparr>))"

text \<open>
  The host running a pending frame callback: the callback leaves the queue and \<open>animate\<close>
  is called with the frame's timestamp. \<open>driver_ok\<close> is the shape of the queue that the
  frame driver maintains: nothing is pending while idle, and at most the request whose
  handle is stored in \<open>animationRequestID\<close> is pending.
\<close>

definition frame_callback :: "nat \<Rightarrow> real \<Rightarrow> state \<Rightarrow> error option \<times> state" where
  "frame_callback h currentTime s =
     animate currentTime (s\<lparr>frameRequests := removeAll h (frameRequests s)\<rparr>)"

definition driver_ok :: "state \<Rightarrow> bool" where
  "driver_ok s =
     ((animating s \<or> frameRequests s = []) \<and>
      (frameRequests s = [] \<or>
       frameRequests s = [case animationRequestID s of None \<Rightarrow> 0 | Some i \<Rightarrow> i]))"

subsection \<open>Runs and a concrete viewer\<close>

text \<open>
  A run of the pan controller: each tick carries the keys held at that moment (the table
  as the key handlers left it) and the elapsed time handed to \<open>update\<close>. The run stops at
  the first tick that throws.
\<close>

fun run_updates :: "((nat \<rightharpoonup> bool) \<times> real) list \<Rightarrow> state \<Rightarrow> error option \<times> state" where
  "run_updates [] s = (None, s)"
| "run_updates ((keys, dt) # ticks) s =
     (case update dt (s\<lparr>g_keys := keys\<rparr>) of
        (Some e, s1) \<Rightarrow> (Some e, s1)
      | (None, s1) \<Rightarrow> run_updates ticks s1)"

text \<open>
  The viewer used for concrete evaluations: a canvas of 800 by 600, panoramas of 3000 by
  1500 (so the scale is 0.4 and the scaled panoramas are 1200 by 600), a border image of
  278 by 208 whose scaled copy is 200 by 150, the mouse at (100, 100), the offset at 50,
  no key held, and one frame pending.
\<close>

definition scenario :: state where
  "scenario =
     \<lparr>canvas = Some \<lparr>width = 800, height = 600\<rparr>,
      backgroundImage = Some \<lparr>width = 3000, height = 1500\<rparr>,
      backgroundCanvas = \<lparr>width = 1200, height = 600\<rparr>,
      foregroundImage = Some \<lparr>width = 3000, height = 1500\<rparr>,
      foregroundCanvas = \<lparr>width = 1200, height = 600\<rparr>,
      borderImage = Some \<lparr>width = 278, height = 208\<rparr>,
      borderCanvas = \<lparr>width = 200, height = 150\<rparr>,
      imageScale = to_double 0.4,
      ready = True,
      animating = True,
      imageOffsetX = 50,
      animationRequestID = Some 1,
      mouse_x = 100,
      mouse_y = 100,
      previousTime = 0,
      g_keys = Map.empty,
      ctx_calls = [],
      smoothingQuality = True,
      frameRequests = [1],
      lastHandle = 1\<rparr>"

section \<open>Properties\<close>

subsection \<open>Helper lemmas\<close>

text \<open>Within its precondition \<open>clamp\<close> is the expression of its documentation comment.\<close>

lemma clamp_max_min:
  "minValue \<le> maxValue \<Longrightarrow>
   clamp val minValue maxValue = Inr (max minValue (min maxValue val))"
  by (simp add: clamp_def assert_def max_def min_def)

lemmas key_codes = KEY_ARROW_LEFT_def KEY_A_def KEY_ARROW_RIGHT_def KEY_D_def

lemma pan_left_keys:
  "isOneKeyDown keys [KEY_ARROW_LEFT, KEY_A] = (isKeyDown keys KEY_ARROW_LEFT \<or> isKeyDown keys KEY_A)"
  by simp

lemma pan_right_keys:
  "isOneKeyDown keys [KEY_ARROW_RIGHT, KEY_D] = (isKeyDown keys KEY_ARROW_RIGHT \<or> isKeyDown keys KEY_D)"
  by simp

text \<open>What \<open>update\<close> does once the canvas is bound and narrower than the scaled foreground.\<close>

lemma update_panning:
  assumes "canvas s = Some cv" and "width cv < width (foregroundCanvas s)"
  shows "update dt s =
     (if isKeyDown (g_keys s) KEY_ARROW_LEFT \<or> isKeyDown (g_keys s) KEY_A then
        (None, s\<lparr>imageOffsetX :=
           max 0 (min (width (foregroundCanvas s) - width cv) (imageOffsetX s - 800 * dt / 1000))\<rparr>)
      else if isKeyDown (g_keys s) KEY_ARROW_RIGHT \<or> isKeyDown (g_keys s) KEY_D then
        (None, s\<lparr>imageOffsetX :=
           max 0 (min (width (foregroundCanvas s) - width cv) (imageOffsetX s + 800 * dt / 1000))\<rparr>)
      else (None, s))"
proof -
  have limit: "0 \<le> width (foregroundCanvas s) - width cv"
    using assms(2) by simp
  show ?thesis
    using assms
    by (simp add: update_def assert_def panningSpeed_def clamp_max_min [OF limit]
        pan_left_keys pan_right_keys del: isOneKeyDown.simps)
qed

lemma update_throws:
  assumes "canvas s = Some cv" and "\<not> width cv < width (foregroundCanvas s)"
  shows "update dt s = (Some (Error ''Assertion failed!''), s)"
  using assms by (simp add: update_def assert_def)

lemma update_in_range:
  assumes "canvas s = Some cv" and "width cv < width (foregroundCanvas s)"
    and "0 \<le> imageOffsetX s" and "imageOffsetX s \<le> width (foregroundCanvas s) - width cv"
  shows "\<exists>s'. update dt s = (None, s') \<and> canvas s' = Some cv
           \<and> foregroundCanvas s' = foregroundCanvas s
           \<and> 0 \<le> imageOffsetX s' \<and> imageOffsetX s' \<le> width (foregroundCanvas s) - width cv"
  using assms by (simp add: update_panning [OF assms(1,2)])

text \<open>
  Frame lemmas: \<open>update\<close> writes the offset only, \<open>render\<close> the call log only, so a
  \<open>step\<close> leaves the frame driver's variables alone.
\<close>

lemma update_unbound: "canvas s = None \<Longrightarrow> update dt s = (Some TypeError, s)"
  by (simp add: update_def)

lemma update_frame:
  "snd (update dt s) = s\<lparr>imageOffsetX := imageOffsetX (snd (update dt s))\<rparr>"
proof -
  consider (unbound) "canvas s = None"
    | (wide) cv where "canvas s = Some cv" "\<not> width cv < width (foregroundCanvas s)"
    | (pan) cv where "canvas s = Some cv" "width cv < width (foregroundCanvas s)"
    by (cases "canvas s") auto
  then show ?thesis
  proof cases
    case unbound
    then show ?thesis
      by (simp add: update_unbound)
  next
    case wide
    then show ?thesis
      by (simp add: update_throws)
  next
    case pan
    show ?thesis
      unfolding update_panning [OF pan] by simp
  qed
qed

lemma render_frame:
  "snd (render dt s) = s\<lparr>ctx_calls := ctx_calls (snd (render dt s))\<rparr>"
  by (cases "canvas s") (simp_all add: render_def Let_def)

lemma step_cases:
  "step dt s = update dt s \<or> step dt s = render dt (snd (update dt s))"
  by (cases "update dt s"; cases "fst (update dt s)") (auto simp: step_def)

lemma step_frame:
  "snd (step dt s) =
     s\<lparr>imageOffsetX := imageOffsetX (snd (step dt s)), ctx_calls := ctx_calls (snd (step dt s))\<rparr>"
  using step_cases [of dt s]
proof
  assume "step dt s = update dt s"
  then show ?thesis
    using update_frame [of dt s] by simp
next
  assume r: "step dt s = render dt (snd (update dt s))"
  have "snd (step dt s) = (snd (update dt s))\<lparr>ctx_calls := ctx_calls (snd (step dt s))\<rparr>"
    using render_frame [of dt "snd (update dt s)"] r by simp
  also have "\<dots> = s\<lparr>imageOffsetX := imageOffsetX (snd (update dt s)),
                     ctx_calls := ctx_calls (snd (step dt s))\<rparr>"
    using update_frame [of dt s] by simp
  finally have eq: "snd (step dt s) = s\<lparr>imageOffsetX := imageOffsetX (snd (update dt s)),
                     ctx_calls := ctx_calls (snd (step dt s))\<rparr>" .
  have "imageOffsetX (snd (step dt s)) = imageOffsetX (snd (update dt s))"
    by (subst eq) simp
  with eq show ?thesis
    by simp
qed

lemma step_keeps:
  "animating (snd (step dt s)) = animating s"
  "previousTime (snd (step dt s)) = previousTime s"
  "frameRequests (snd (step dt s)) = frameRequests s"
  "lastHandle (snd (step dt s)) = lastHandle s"
  "animationRequestID (snd (step dt s)) = animationRequestID s"
  by (subst step_frame, simp)+

lemma animate_running:
  "animating s \<Longrightarrow>
   animate currentTime s =
     request_next_frame (step (max (currentTime - previousTime s) (1000 / 60))
                              (s\<lparr>previousTime := currentTime\<rparr>))"
  by (simp add: animate_def request_next_frame_def Let_def)

lemmas tick_defs = step_def update_def render_def assert_def clamp_def panningSpeed_def
  isKeyDown_def key_codes request_next_frame_def requestAnimationFrame_def Let_def

text \<open>\<open>render\<close> on a bound canvas, and the scaler on loaded images, written out.\<close>

lemma render_ready:
  assumes "ready s" and "canvas s = Some cv"
  shows "render dt s =
     (None, s\<lparr>ctx_calls := ctx_calls s @
        [SetFillStyle Canvas ''#000'',
         FillRect Canvas 0 0 (width cv) (height cv),
         DrawImage Canvas ForegroundCanvas (- imageOffsetX s) 0,
         DrawImageRect Canvas BackgroundCanvas
           (mouse_x s + imageOffsetX s - width (borderCanvas s) * 0.937 / 2)
           (mouse_y s - height (borderCanvas s) * 0.937 / 2)
           (width (borderCanvas s) * 0.937) (height (borderCanvas s) * 0.937)
           (mouse_x s - width (borderCanvas s) * 0.937 / 2)
           (mouse_y s - height (borderCanvas s) * 0.937 / 2)
           (width (borderCanvas s) * 0.937) (height (borderCanvas s) * 0.937),
         DrawImage Canvas BorderCanvas
           (mouse_x s - width (borderCanvas s) / 2) (mouse_y s - height (borderCanvas s) / 2)]\<rparr>)"
  using assms by (simp add: render_def Let_def)

lemma resizeImage_bound:
  "resizeImage img (Some src) tgt target_canvas scale quality =
     Inr (target_canvas\<lparr>width := dom_dimension 300 (js_round (js_mul scale (Num (width src)))),
                        height := dom_dimension 150 (js_round (js_mul scale (Num (height src))))\<rparr>,
          (if quality then [SetImageSmoothingQuality tgt ''high''] else []) @
          [DrawImageRect tgt img 0 0 (width src) (height src) 0 0
             (dom_dimension 300 (js_round (js_mul scale (Num (width src)))))
             (dom_dimension 150 (js_round (js_mul scale (Num (height src)))))])"
  by (simp add: resizeImage_def Let_def)

lemma resizeImages_bound:
  assumes "backgroundImage s = Some bg" and "foregroundImage s = Some fg"
    and "borderImage s = Some bd"
  shows "resizeImages s =
     (None, s\<lparr>backgroundCanvas := (backgroundCanvas s)
                  \<lparr>width := dom_dimension 300 (js_round (js_mul (imageScale s) (Num (width bg)))),
                   height := dom_dimension 150 (js_round (js_mul (imageScale s) (Num (height bg))))\<rparr>,
               foregroundCanvas := (foregroundCanvas s)
                  \<lparr>width := dom_dimension 300 (js_round (js_mul (imageScale s) (Num (width fg)))),
                   height := dom_dimension 150 (js_round (js_mul (imageScale s) (Num (height fg))))\<rparr>,
               borderCanvas := (borderCanvas s)
                  \<lparr>width := dom_dimension 300
                     (js_round (js_mul (js_mul (imageScale s) (to_double 1.8)) (Num (width bd)))),
                   height := dom_dimension 150
                     (js_round (js_mul (js_mul (imageScale s) (to_double 1.8)) (Num (height bd))))\<rparr>,
               ctx_calls := ctx_calls (snd (resizeImages s))\<rparr>)"
  using assms by (simp add: resizeImages_def resizeImage_bound Let_def)

text \<open>
  Doubles. Normalising keeps the value and ends with a mantissa of 53 bits unless the
  value is subnormal, so rounding a real of the normal range to a double changes it by at
  most the fraction \<open>2^-53\<close> of itself.
\<close>

lemma scale_down_props:
  "2 ^ 52 \<le> m \<Longrightarrow> scale_down m u = (m', u') \<Longrightarrow>
   m' * u' = m * u \<and> 2 ^ 52 \<le> m' \<and> m' < 2 ^ 53"
proof (induction m u rule: scale_down.induct)
  case (1 m u)
  show ?case
  proof (cases "(2::real) ^ 53 \<le> m")
    case True
    have unfolded: "scale_down m u = scale_down (m / 2) (u * 2)"
      by (subst scale_down.simps) (simp only: True if_True)
    have "scale_down (m / 2) (u * 2) = (m', u')"
      using "1.prems"(2) unfolding unfolded .
    moreover have "(2::real) ^ 52 \<le> m / 2"
      using True by simp
    ultimately have "m' * u' = m / 2 * (u * 2) \<and> 2 ^ 52 \<le> m' \<and> m' < 2 ^ 53"
      using "1.IH" [OF True] by blast
    then show ?thesis
      by simp
  next
    case False
    have unfolded: "scale_down m u = (m, u)"
      by (subst scale_down.simps) (simp only: False if_False)
    have "(m, u) = (m', u')"
      using "1.prems"(2) unfolding unfolded .
    then show ?thesis
      using False "1.prems"(1) by simp
  qed
qed

lemma scale_up_props:
  "m < 2 ^ 53 \<Longrightarrow> - 1074 \<le> e \<Longrightarrow> e \<le> 0 \<Longrightarrow> u * 2 ^ nat (- e) = 1 \<Longrightarrow>
   scale_up m u e = (m', u') \<Longrightarrow>
   m' * u' = m * u \<and> m' < 2 ^ 53 \<and> (2 ^ 52 \<le> m' \<or> u' * 2 ^ 1074 = 1)"
proof (induction m u e rule: scale_up.induct)
  case (1 m u e)
  show ?case
  proof (cases "m < 2 ^ 52 \<and> - 1074 < e")
    case True
    have unfolded: "scale_up m u e = scale_up (m * 2) (u / 2) (e - 1)"
      by (subst scale_up.simps) (simp only: True simp_thms if_True)
    have run: "scale_up (m * 2) (u / 2) (e - 1) = (m', u')"
      using "1.prems"(5) unfolding unfolded .
    have "nat (- (e - 1)) = Suc (nat (- e))"
      using "1.prems"(3) by simp
    then have "u / 2 * 2 ^ nat (- (e - 1)) = 1"
      using "1.prems"(4) by simp
    moreover have "m * 2 < 2 ^ 53" "- 1074 \<le> e - 1" "e - 1 \<le> 0"
      using True "1.prems"(3) by simp_all
    ultimately have "m' * u' = m * 2 * (u / 2) \<and> m' < 2 ^ 53 \<and> (2 ^ 52 \<le> m' \<or> u' * 2 ^ 1074 = 1)"
      using "1.IH" [OF True] run by blast
    then show ?thesis
      by simp
  next
    case False
    have unfolded: "scale_up m u e = (m, u)"
      by (subst scale_up.simps) (simp only: False if_False)
    have "(m, u) = (m', u')"
      using "1.prems"(5) unfolding unfolded .
    then have same: "m' = m" "u' = u"
      by simp_all
    have "2 ^ 52 \<le> m \<or> e = - 1074"
    proof (cases "m < 2 ^ 52")
      case True
      then have "\<not> - 1074 < e"
        using False by blast
      then show ?thesis
        using "1.prems"(2) by simp
    next
      case False
      then show ?thesis
        by simp
    qed
    then have "2 ^ 52 \<le> m \<or> u * 2 ^ 1074 = 1"
      using "1.prems"(4) by auto
    then show ?thesis
      using same "1.prems"(1) by simp
  qed
qed

lemma round_half_even_close:
  "\<bar>of_int (round_half_even m) - m\<bar> \<le> 1 / 2"
  unfolding round_half_even_def Let_def by (auto; linarith)

lemma normalized_error:
  assumes "m * u = a" and "2 ^ 52 \<le> m" and "0 < a"
  shows "\<bar>of_int (round_half_even m) * u - a\<bar> \<le> a / 2 ^ 53"
proof -
  have m: "0 < m"
    using assms(2) by (rule less_le_trans [rotated]) simp
  have u: "0 < u"
    using assms(1,3) m zero_less_mult_pos [of m u] by simp
  have "of_int (round_half_even m) * u - a = (of_int (round_half_even m) - m) * u"
    using assms(1) by (simp add: algebra_simps)
  then have "\<bar>of_int (round_half_even m) * u - a\<bar> = \<bar>of_int (round_half_even m) - m\<bar> * u"
    using u by (simp add: abs_mult)
  also have "\<dots> \<le> 1 / 2 * u"
    using round_half_even_close [of m] u by (intro mult_right_mono) simp_all
  also have "\<dots> \<le> a / 2 ^ 53"
  proof -
    have "2 ^ 52 * u \<le> m * u"
      using assms(2) u by (intro mult_right_mono) simp_all
    then have "2 ^ 52 * u \<le> a"
      using assms(1) by simp
    then show ?thesis
      by simp
  qed
  finally show ?thesis .
qed

lemma round_pos_error:
  assumes "1 / 2 ^ 1022 \<le> a"
  shows "\<bar>round_pos a - a\<bar> \<le> a / 2 ^ 53"
proof -
  have pos: "0 < a"
    using assms by (rule less_le_trans [rotated]) simp
  show ?thesis
  proof (cases "(2::real) ^ 53 \<le> a")
    case True
    obtain m u where run: "scale_down a 1 = (m, u)"
      by (cases "scale_down a 1")
    have "(2::real) ^ 52 \<le> a"
      using True by simp
    then have props: "m * u = a" "2 ^ 52 \<le> m"
      using scale_down_props [OF _ run] by simp_all
    show ?thesis
      using normalized_error [OF props pos] True run
      by (simp add: round_pos_def del: scale_down.simps scale_up.simps)
  next
    case False
    obtain m u where run: "scale_up a 1 0 = (m, u)"
      by (cases "scale_up a 1 0")
    have props: "m * u = a" "m < 2 ^ 53" "2 ^ 52 \<le> m \<or> u * 2 ^ 1074 = 1"
      using scale_up_props [OF _ _ _ _ run] False by simp_all
    have "2 ^ 52 \<le> m"
    proof (rule ccontr)
      assume small: "\<not> 2 ^ 52 \<le> m"
      then have u: "u = 1 / 2 ^ 1074"
        using props(3) by (simp add: field_simps)
      have "a < 2 ^ 52 * (1 / 2 ^ 1074)"
        using small props(1) unfolding u by simp
      also have "\<dots> = 1 / 2 ^ 1022"
        by simp
      finally show False
        using assms by simp
    qed
    then show ?thesis
      using normalized_error [OF props(1) _ pos] False run
      by (simp add: round_pos_def del: scale_down.simps scale_up.simps)
  qed
qed

lemma to_double_error:
  assumes "1 / 2 ^ 1022 \<le> a" and "a \<le> 2 ^ 1023"
  shows "\<exists>y. to_double a = Num y \<and> \<bar>y - a\<bar> \<le> a / 2 ^ 53"
proof -
  have pos: "0 < a"
    using assms(1) by (rule less_le_trans [rotated]) simp
  have err: "\<bar>round_pos a - a\<bar> \<le> a / 2 ^ 53"
    using round_pos_error [OF assms(1)] .
  have "a / 2 ^ 53 < a"
    using pos by (simp add: field_simps)
  then have "round_pos a < 2 * a"
    using err by linarith
  also have "\<dots> \<le> 2 ^ 1024"
    using assms(2) by simp
  finally have "\<not> 2 ^ 1024 \<le> round_pos a"
    by simp
  then have "to_double a = Num (round_pos a)"
    using pos by (simp add: to_double_def Let_def)
  then show ?thesis
    using err by simp
qed

lemmas double_eval = to_double_def round_pos_def round_half_even_def Let_def

text \<open>
  Canvas dimensions: a whole number up to 2147483647 is stored as it is, and whatever is
  assigned, the stored dimension is such a number.
\<close>

lemma dom_dimension_whole:
  "0 \<le> n \<Longrightarrow> n \<le> 2147483647 \<Longrightarrow> dom_dimension d (Num (of_int n)) = of_int n"
  by (simp add: dom_dimension_def to_uint32_def)

lemma dom_dimension_range:
  "\<exists>n. dom_dimension 150 v = of_int n \<and> 0 \<le> n \<and> n \<le> 2147483647"
  "\<exists>n. dom_dimension 300 v = of_int n \<and> 0 \<le> n \<and> n \<le> 2147483647"
proof -
  have "\<exists>n. dom_dimension (of_int d) v = of_int n \<and> 0 \<le> n \<and> n \<le> 2147483647"
    if "0 \<le> d" "d \<le> 2147483647" for d :: int
  proof (cases "to_uint32 v \<le> 2147483647")
    case True
    moreover have "0 \<le> to_uint32 v"
      by (cases v) (simp_all add: to_uint32_def)
    ultimately show ?thesis
      by (auto simp: dom_dimension_def)
  next
    case False
    then have "dom_dimension (of_int d) v = of_int d"
      by (simp add: dom_dimension_def)
    then show ?thesis
      using that by blast
  qed
  from this [of 150] this [of 300]
  show "\<exists>n. dom_dimension 150 v = of_int n \<and> 0 \<le> n \<and> n \<le> 2147483647"
    "\<exists>n. dom_dimension 300 v = of_int n \<and> 0 \<le> n \<and> n \<le> 2147483647"
    by simp_all
qed

lemma canvas_can_hold_round:
  assumes "canvas_can_hold (js_round v)"
  shows "Num (dom_dimension d (js_round v)) = js_round v"
proof (cases v)
  case (Num x)
  then have "0 \<le> round x" "round x \<le> 2147483647"
    using assms by (simp_all add: canvas_can_hold_def)
  then show ?thesis
    using Num dom_dimension_whole [of "round x" d] by simp
qed (use assms in \<open>simp_all add: canvas_can_hold_def\<close>)

text \<open>
  Dividing a canvas height by an image height and multiplying the quotient by the image
  height again, in doubles, gives the canvas height back once rounded to a whole number.
\<close>

lemma scale_round_trip:
  assumes "0 \<le> n" and "n \<le> 2147483647" and "1 \<le> h" and "h \<le> 4294967295"
  shows "js_round (js_mul (js_div (of_int n) h) (Num h)) = Num (of_int n)"
proof (cases "n = 0")
  case True
  then show ?thesis
    using assms(3) by (simp add: js_div_def to_double_def)
next
  case False
  let ?H = "real_of_int n"
  have H: "1 \<le> ?H" "?H \<le> 2147483647"
    using False assms(1,2) by simp_all
  have h: "0 < h"
    using assms(3) by simp
  have quot_lo: "1 / 4294967295 \<le> ?H / h"
    using H(1) assms(4) h by (simp add: field_simps)
  have quot_hi: "?H / h \<le> 2147483647"
    using H(2) assms(3) h by (simp add: field_simps)
  have "1 / 2 ^ 1022 \<le> (1 / 4294967295 :: real)"
    by simp
  then have "1 / 2 ^ 1022 \<le> ?H / h"
    using quot_lo by linarith
  moreover have "?H / h \<le> 2 ^ 1023"
    using quot_hi by (rule order_trans) simp
  ultimately obtain q where q: "to_double (?H / h) = Num q" "\<bar>q - ?H / h\<bar> \<le> ?H / h / 2 ^ 53"
    using to_double_error by blast
  have "q * h - ?H = (q - ?H / h) * h"
    using h by (simp add: field_simps)
  then have "\<bar>q * h - ?H\<bar> = \<bar>q - ?H / h\<bar> * h"
    using h by (simp add: abs_mult)
  also have "\<dots> \<le> ?H / h / 2 ^ 53 * h"
    using q(2) h by (intro mult_right_mono) simp_all
  also have "\<dots> = ?H / 2 ^ 53"
    using h by simp
  finally have qh: "\<bar>q * h - ?H\<bar> \<le> ?H / 2 ^ 53" .
  have "?H / 2 ^ 53 \<le> 1 / 2"
    using H(2) by simp
  then have prod_lo: "1 / 2 \<le> q * h" and prod_hi: "q * h \<le> 2147483648"
    using qh H by linarith+
  have "1 / 2 ^ 1022 \<le> (1 / 2 :: real)"
    by simp
  then have "1 / 2 ^ 1022 \<le> q * h"
    using prod_lo by linarith
  moreover have "q * h \<le> 2 ^ 1023"
    using prod_hi by (rule order_trans) simp
  ultimately obtain p where p: "to_double (q * h) = Num p" "\<bar>p - q * h\<bar> \<le> q * h / 2 ^ 53"
    using to_double_error by blast
  have "q * h / 2 ^ 53 \<le> 2147483648 / 2 ^ 53"
    using prod_hi by (intro divide_right_mono) simp_all
  moreover have "?H / 2 ^ 53 \<le> 2147483647 / 2 ^ 53"
    using H(2) by (intro divide_right_mono) simp_all
  ultimately have "\<bar>p - ?H\<bar> \<le> 2147483648 / 2 ^ 53 + 2147483647 / 2 ^ 53"
    using p(2) qh by linarith
  also have "\<dots> < 1 / 2"
    by simp
  finally have close: "\<bar>p - ?H\<bar> < 1 / 2" .
  have "round p = n"
    by (rule round_unique) (use close in linarith)+
  moreover have "js_mul (js_div ?H h) (Num h) = Num p"
    using h q(1) p(1) by (simp add: js_div_def)
  ultimately show ?thesis
    by simp
qed

text \<open>
  The frame loop writes neither \<open>ready\<close> nor \<open>canvas\<close>: the only assignments to them are
  those of \<open>main\<close>, which binds the canvas and sets \<open>ready\<close> in consecutive statements.
\<close>

lemma step_keeps_binding:
  "ready (snd (step dt s)) = ready s"
  "canvas (snd (step dt s)) = canvas s"
  by (subst step_frame, simp)+

lemma request_next_frame_keeps_binding:
  "ready (snd (request_next_frame r)) = ready (snd r)"
  "canvas (snd (request_next_frame r)) = canvas (snd r)"
  by (cases r; cases "fst r";
      simp add: request_next_frame_def requestAnimationFrame_def Let_def)+

lemma animate_keeps_binding:
  "ready (snd (animate currentTime s)) = ready s"
  "canvas (snd (animate currentTime s)) = canvas s"
proof -
  show "ready (snd (animate currentTime s)) = ready s"
  proof (cases "animating s")
    case True
    then show ?thesis
      by (simp add: animate_running request_next_frame_keeps_binding step_keeps_binding)
  next
    case False
    then show ?thesis
      by (simp add: animate_def)
  qed
  show "canvas (snd (animate currentTime s)) = canvas s"
  proof (cases "animating s")
    case True
    then show ?thesis
      by (simp add: animate_running request_next_frame_keeps_binding step_keeps_binding)
  next
    case False
    then show ?thesis
      by (simp add: animate_def)
  qed
qed

lemma startAnimation_keeps_binding:
  "ready (snd (startAnimation s)) = ready s"
  "canvas (snd (startAnimation s)) = canvas s"
  by (simp_all add: startAnimation_def Let_def animate_keeps_binding)

lemma stopAnimation_keeps_binding:
  "ready (stopAnimation s) = ready s"
  "canvas (stopAnimation s) = canvas s"
  by (simp_all add: stopAnimation_def cancelAnimationFrame_def Let_def)

text \<open>Starting and stopping, and the queue of frame requests they maintain.\<close>

lemma request_next_frame_keeps:
  "animating (snd (request_next_frame r)) = animating (snd r)"
  "previousTime (snd (request_next_frame r)) = previousTime (snd r)"
  by (cases r; cases "fst r";
      simp add: request_next_frame_def requestAnimationFrame_def Let_def)+

lemma startAnimation_idle:
  "\<not> animating s \<Longrightarrow>
   startAnimation s =
     request_next_frame (step (1000 / 60) (s\<lparr>animating := True, previousTime := 0\<rparr>))"
  by (simp add: startAnimation_def Let_def animate_running)

lemma request_next_frame_queue:
  "frameRequests (snd r) = [] \<Longrightarrow> animating (snd r) \<Longrightarrow>
   driver_ok (snd (request_next_frame r))"
  by (cases r; cases "fst r")
     (simp_all add: request_next_frame_def requestAnimationFrame_def Let_def driver_ok_def)

lemma animate_driver_ok:
  assumes "frameRequests s = []"
  shows "driver_ok (snd (animate currentTime s))"
proof (cases "animating s")
  case True
  then show ?thesis
    using assms by (simp add: animate_running request_next_frame_queue step_keeps)
next
  case False
  then show ?thesis
    using assms by (simp add: animate_def driver_ok_def)
qed

lemma stopAnimation_driver_ok:
  "driver_ok s \<Longrightarrow> frameRequests (stopAnimation s) = [] \<and> driver_ok (stopAnimation s)"
  by (auto simp: driver_ok_def stopAnimation_def cancelAnimationFrame_def Let_def)

lemma startAnimation_driver_ok:
  assumes "driver_ok s"
  shows "driver_ok (snd (startAnimation s))"
proof (cases "animating s")
  case True
  then show ?thesis
    using assms by (simp add: startAnimation_def)
next
  case False
  then have "frameRequests s = []"
    using assms by (simp add: driver_ok_def)
  then show ?thesis
    using False by (simp add: startAnimation_def Let_def animate_driver_ok)
qed

lemma frame_callback_driver_ok:
  assumes "driver_ok s" and "h \<in> set (frameRequests s)"
  shows "driver_ok (snd (frame_callback h currentTime s))"
proof -
  have "frameRequests s = [h]"
    using assms by (auto simp: driver_ok_def)
  then show ?thesis
    by (simp add: frame_callback_def animate_driver_ok)
qed

lemma stopAnimation_idle:
  "driver_ok s \<Longrightarrow> \<not> animating s \<Longrightarrow> stopAnimation s = s"
  by (simp add: driver_ok_def stopAnimation_def cancelAnimationFrame_def Let_def)

subsection \<open>Clamp\<close>

text \<open>
  C7. Whenever \<open>minValue \<le> maxValue\<close>, \<open>clamp\<close> returns a number of the interval from
  \<open>minValue\<close> to \<open>maxValue\<close>, and returns \<open>value\<close> itself when that already lies in the
  interval; whenever \<open>minValue > maxValue\<close>, the assertion fails and \<open>clamp\<close> throws.
\<close>

theorem clamp_contract:
  "(minValue \<le> maxValue \<longrightarrow>
      (\<exists>r. clamp val minValue maxValue = Inr r \<and> minValue \<le> r \<and> r \<le> maxValue \<and>
           (minValue \<le> val \<and> val \<le> maxValue \<longrightarrow> r = val)))
   \<and> (minValue > maxValue \<longrightarrow> clamp val minValue maxValue = Inl (Error ''Assertion failed!''))"
  by (auto simp: clamp_def assert_def)

theorem clamp_contract_witness:
  "(0::real) \<le> 10 \<and> clamp 15 0 10 = Inr 10 \<and> clamp 7 0 10 = Inr 7
   \<and> (10::real) > 0 \<and> clamp 7 10 0 = Inl (Error ''Assertion failed!'')"
  using clamp_contract [of 0 10 15] clamp_contract [of 0 10 7] clamp_contract [of 10 0 7]
  by (simp add: clamp_def assert_def)

subsection \<open>Pan controller\<close>

text \<open>
  C1. Pan bounds. Let the canvas be bound and narrower than the scaled foreground, and let
  the offset start between 0 and the travel limit (scaled foreground width minus canvas
  width). Then every run of \<open>update\<close>, whatever keys are held and whatever time elapses at
  each tick, completes without throwing and ends with the offset between 0 and the travel
  limit. Since this holds for every run, it holds after each tick of a run.
\<close>

theorem pan_bounds:
  assumes "canvas s = Some cv" and "width cv < width (foregroundCanvas s)"
    and "0 \<le> imageOffsetX s" and "imageOffsetX s \<le> width (foregroundCanvas s) - width cv"
  shows "\<exists>s'. run_updates ticks s = (None, s')
           \<and> 0 \<le> imageOffsetX s' \<and> imageOffsetX s' \<le> width (foregroundCanvas s) - width cv"
  using assms
proof (induction ticks arbitrary: s)
  case Nil
  then show ?case by simp
next
  case (Cons tick ticks)
  obtain keys dt where tick: "tick = (keys, dt)"
    by (cases tick)
  let ?s0 = "s\<lparr>g_keys := keys\<rparr>"
  have "\<exists>s1. update dt ?s0 = (None, s1) \<and> canvas s1 = Some cv
           \<and> foregroundCanvas s1 = foregroundCanvas ?s0
           \<and> 0 \<le> imageOffsetX s1 \<and> imageOffsetX s1 \<le> width (foregroundCanvas ?s0) - width cv"
    using Cons.prems by (intro update_in_range) simp_all
  then obtain s1 where s1: "update dt ?s0 = (None, s1)" "canvas s1 = Some cv"
      "foregroundCanvas s1 = foregroundCanvas s"
      "0 \<le> imageOffsetX s1" "imageOffsetX s1 \<le> width (foregroundCanvas s) - width cv"
    by auto
  have "\<exists>s'. run_updates ticks s1 = (None, s')
           \<and> 0 \<le> imageOffsetX s' \<and> imageOffsetX s' \<le> width (foregroundCanvas s1) - width cv"
    using s1 Cons.prems(2) by (intro Cons.IH) simp_all
  then show ?case
    using s1 tick by simp
qed

theorem pan_bounds_witness:
  "canvas (scenario\<lparr>imageOffsetX := 0\<rparr>) = Some \<lparr>width = 800, height = 600\<rparr>
   \<and> width \<lparr>width = 800, height = 600\<rparr> < width (foregroundCanvas (scenario\<lparr>imageOffsetX := 0\<rparr>))
   \<and> 0 \<le> imageOffsetX (scenario\<lparr>imageOffsetX := 0\<rparr>)
   \<and> imageOffsetX (scenario\<lparr>imageOffsetX := 0\<rparr>)
        \<le> width (foregroundCanvas (scenario\<lparr>imageOffsetX := 0\<rparr>)) - width \<lparr>width = 800, height = 600\<rparr>
   \<and> (\<exists>s'. run_updates [([KEY_ARROW_RIGHT \<mapsto> True], 1000), ([KEY_A \<mapsto> True], 250),
                          (Map.empty, 16), ([KEY_D \<mapsto> True, KEY_ARROW_LEFT \<mapsto> False], - 20)]
              (scenario\<lparr>imageOffsetX := 0\<rparr>) = (None, s')
          \<and> 0 \<le> imageOffsetX s'
          \<and> imageOffsetX s' \<le> width (foregroundCanvas (scenario\<lparr>imageOffsetX := 0\<rparr>)) - width \<lparr>width = 800, height = 600\<rparr>)"
  using pan_bounds [of "scenario\<lparr>imageOffsetX := 0\<rparr>" "\<lparr>width = 800, height = 600\<rparr>"
      "[([KEY_ARROW_RIGHT \<mapsto> True], 1000), ([KEY_A \<mapsto> True], 250),
        (Map.empty, 16), ([KEY_D \<mapsto> True, KEY_ARROW_LEFT \<mapsto> False], - 20)]"]
  by (simp add: scenario_def)

text \<open>The end-to-end scenario of the specification: one second of the right key from offset 0.\<close>

lemma scenario_run:
  "imageOffsetX (snd (run_updates [([KEY_ARROW_RIGHT \<mapsto> True], 1000)] (scenario\<lparr>imageOffsetX := 0\<rparr>))) = 400"
  by (simp add: scenario_def update_def assert_def clamp_def panningSpeed_def isKeyDown_def key_codes)

text \<open>
  C4. Pan direction. With the canvas bound and narrower than the scaled foreground: if
  left-arrow or A is held, the offset becomes the old offset minus \<open>800 * dt / 1000\<close>,
  clamped to the travel range; otherwise, if right-arrow or D is held, it becomes the old
  offset plus \<open>800 * dt / 1000\<close>, clamped; and when a left key and a right key are both held,
  the offset does not increase (for a non-negative \<open>dt\<close> and a non-negative offset, which
  is what the frame driver and the pan bounds provide).
\<close>

theorem pan_direction:
  assumes "canvas s = Some cv" and "width cv < width (foregroundCanvas s)"
  shows "(isKeyDown (g_keys s) KEY_ARROW_LEFT \<or> isKeyDown (g_keys s) KEY_A \<longrightarrow>
            update dt s = (None, s\<lparr>imageOffsetX :=
              max 0 (min (width (foregroundCanvas s) - width cv) (imageOffsetX s - 800 * dt / 1000))\<rparr>))
       \<and> (\<not> (isKeyDown (g_keys s) KEY_ARROW_LEFT \<or> isKeyDown (g_keys s) KEY_A) \<and>
            (isKeyDown (g_keys s) KEY_ARROW_RIGHT \<or> isKeyDown (g_keys s) KEY_D) \<longrightarrow>
            update dt s = (None, s\<lparr>imageOffsetX :=
              max 0 (min (width (foregroundCanvas s) - width cv) (imageOffsetX s + 800 * dt / 1000))\<rparr>))
       \<and> ((isKeyDown (g_keys s) KEY_ARROW_LEFT \<or> isKeyDown (g_keys s) KEY_A) \<and>
            (isKeyDown (g_keys s) KEY_ARROW_RIGHT \<or> isKeyDown (g_keys s) KEY_D) \<and>
            0 \<le> dt \<and> 0 \<le> imageOffsetX s \<longrightarrow>
            imageOffsetX (snd (update dt s)) \<le> imageOffsetX s)"
  by (simp add: update_panning [OF assms] min_def max_def)

theorem pan_direction_witness:
  "canvas (scenario\<lparr>g_keys := [KEY_ARROW_LEFT \<mapsto> True, KEY_D \<mapsto> True]\<rparr>) = Some \<lparr>width = 800, height = 600\<rparr>
   \<and> width \<lparr>width = 800, height = 600\<rparr> < width (foregroundCanvas scenario)
   \<and> isKeyDown [KEY_ARROW_LEFT \<mapsto> True, KEY_D \<mapsto> True] KEY_ARROW_LEFT
   \<and> isKeyDown [KEY_ARROW_LEFT \<mapsto> True, KEY_D \<mapsto> True] KEY_D
   \<and> imageOffsetX (snd (update 30 (scenario\<lparr>g_keys := [KEY_ARROW_LEFT \<mapsto> True, KEY_D \<mapsto> True]\<rparr>))) = 26
   \<and> \<not> isKeyDown [KEY_A \<mapsto> False, KEY_D \<mapsto> True] KEY_ARROW_LEFT
   \<and> \<not> isKeyDown [KEY_A \<mapsto> False, KEY_D \<mapsto> True] KEY_A
   \<and> imageOffsetX (snd (update 30 (scenario\<lparr>g_keys := [KEY_A \<mapsto> False, KEY_D \<mapsto> True]\<rparr>))) = 74"
  using pan_direction [of "scenario\<lparr>g_keys := [KEY_ARROW_LEFT \<mapsto> True, KEY_D \<mapsto> True]\<rparr>"
                          "\<lparr>width = 800, height = 600\<rparr>" 30]
        pan_direction [of "scenario\<lparr>g_keys := [KEY_A \<mapsto> False, KEY_D \<mapsto> True]\<rparr>"
                          "\<lparr>width = 800, height = 600\<rparr>" 30]
  by (simp add: scenario_def isKeyDown_def key_codes)

text \<open>
  C9. A tick with none of left-arrow, A, right-arrow, D held leaves every variable as it
  was, for every \<open>dt\<close>; under the pan precondition it also completes normally. The offset
  is not clamped again on such a tick: an offset above the travel limit stays where it is.
\<close>

theorem idle_tick_keeps_offset:
  assumes "\<not> isKeyDown (g_keys s) KEY_ARROW_LEFT" and "\<not> isKeyDown (g_keys s) KEY_A"
    and "\<not> isKeyDown (g_keys s) KEY_ARROW_RIGHT" and "\<not> isKeyDown (g_keys s) KEY_D"
  shows "snd (update dt s) = s
       \<and> (\<forall>cv. canvas s = Some cv \<and> width cv < width (foregroundCanvas s) \<longrightarrow> update dt s = (None, s))"
  using assms
  by (auto simp: update_def assert_def Let_def split: option.splits)

theorem idle_tick_keeps_offset_witness:
  "\<not> isKeyDown (g_keys (scenario\<lparr>imageOffsetX := 500\<rparr>)) KEY_ARROW_LEFT
   \<and> \<not> isKeyDown (g_keys (scenario\<lparr>imageOffsetX := 500\<rparr>)) KEY_A
   \<and> \<not> isKeyDown (g_keys (scenario\<lparr>imageOffsetX := 500\<rparr>)) KEY_ARROW_RIGHT
   \<and> \<not> isKeyDown (g_keys (scenario\<lparr>imageOffsetX := 500\<rparr>)) KEY_D
   \<and> canvas (scenario\<lparr>imageOffsetX := 500\<rparr>) = Some \<lparr>width = 800, height = 600\<rparr>
   \<and> width \<lparr>width = 800, height = 600\<rparr> < width (foregroundCanvas (scenario\<lparr>imageOffsetX := 500\<rparr>))
   \<and> width (foregroundCanvas (scenario\<lparr>imageOffsetX := 500\<rparr>)) - width \<lparr>width = 800, height = 600\<rparr> = 400
   \<and> update 16 (scenario\<lparr>imageOffsetX := 500\<rparr>) = (None, scenario\<lparr>imageOffsetX := 500\<rparr>)
   \<and> imageOffsetX (snd (update 16 (scenario\<lparr>imageOffsetX := 500\<rparr>))) = 500
   \<and> imageOffsetX (snd (update 16 (scenario\<lparr>imageOffsetX := 500, g_keys := [KEY_D \<mapsto> True]\<rparr>))) = 400"
  using idle_tick_keeps_offset [of "scenario\<lparr>imageOffsetX := 500\<rparr>" 16]
  by (simp add: scenario_def isKeyDown_def update_def assert_def clamp_def panningSpeed_def key_codes)

text \<open>
  C10. The pan precondition is checked on every tick. With the canvas bound, \<open>update\<close>
  throws the assertion error whenever the canvas is not narrower than the scaled
  foreground, whatever keys are held (none included) and leaves the variables untouched;
  when the canvas is narrower, \<open>update\<close> does not throw.
\<close>

theorem assert_on_every_tick:
  assumes "canvas s = Some cv"
  shows "(\<not> width cv < width (foregroundCanvas s) \<longrightarrow>
            update dt s = (Some (Error ''Assertion failed!''), s))
       \<and> (width cv < width (foregroundCanvas s) \<longrightarrow> fst (update dt s) = None)"
  using assms
  by (auto simp: update_throws update_panning)

theorem assert_on_every_tick_witness:
  "canvas (scenario\<lparr>canvas := Some \<lparr>width = 1300, height = 600\<rparr>\<rparr>) = Some \<lparr>width = 1300, height = 600\<rparr>
   \<and> \<not> width \<lparr>width = 1300, height = 600\<rparr> < width (foregroundCanvas scenario)
   \<and> g_keys scenario = Map.empty
   \<and> update 16 (scenario\<lparr>canvas := Some \<lparr>width = 1300, height = 600\<rparr>\<rparr>)
       = (Some (Error ''Assertion failed!''), scenario\<lparr>canvas := Some \<lparr>width = 1300, height = 600\<rparr>\<rparr>)
   \<and> canvas scenario = Some \<lparr>width = 800, height = 600\<rparr>
   \<and> width \<lparr>width = 800, height = 600\<rparr> < width (foregroundCanvas scenario)
   \<and> fst (update 16 scenario) = None"
  using assert_on_every_tick [of "scenario\<lparr>canvas := Some \<lparr>width = 1300, height = 600\<rparr>\<rparr>"
                                 "\<lparr>width = 1300, height = 600\<rparr>" 16]
        assert_on_every_tick [of scenario "\<lparr>width = 800, height = 600\<rparr>" 16]
  by (simp add: scenario_def)

subsection \<open>Frame driver\<close>

text \<open>
  C2. Effective-dt floor. While animating, the elapsed time that \<open>animate\<close> hands to
  \<open>step\<close> (and so to \<open>update\<close> and \<open>render\<close>) is the larger of
  \<open>currentTime - previousTime\<close> and \<open>1000 / 60\<close>: it is \<open>1000 / 60\<close> (about 16.667) whenever
  the raw difference is smaller, and it is the raw difference, however large, otherwise.
\<close>

theorem effective_dt_floor:
  assumes "animating s"
  shows "animate currentTime s =
           request_next_frame (step (max (currentTime - previousTime s) (1000 / 60))
                                    (s\<lparr>previousTime := currentTime\<rparr>))
       \<and> (currentTime - previousTime s < 1000 / 60 \<longrightarrow>
            animate currentTime s =
              request_next_frame (step (1000 / 60) (s\<lparr>previousTime := currentTime\<rparr>)))
       \<and> (1000 / 60 \<le> currentTime - previousTime s \<longrightarrow>
            animate currentTime s =
              request_next_frame (step (currentTime - previousTime s)
                                       (s\<lparr>previousTime := currentTime\<rparr>)))"
proof -
  have "currentTime - previousTime s < 1000 / 60 \<Longrightarrow>
        max (currentTime - previousTime s) (1000 / 60) = 1000 / 60"
    by (simp add: max_def)
  moreover have "1000 / 60 \<le> currentTime - previousTime s \<Longrightarrow>
        max (currentTime - previousTime s) (1000 / 60) = currentTime - previousTime s"
    by (simp add: max_def)
  ultimately show ?thesis
    using animate_running [OF assms, of currentTime] by metis
qed

theorem effective_dt_floor_witness:
  "animating (scenario\<lparr>previousTime := 100, g_keys := [KEY_D \<mapsto> True]\<rparr>)
   \<and> (105::real) - previousTime (scenario\<lparr>previousTime := 100, g_keys := [KEY_D \<mapsto> True]\<rparr>) < 1000 / 60
   \<and> imageOffsetX (snd (animate 105 (scenario\<lparr>previousTime := 100, g_keys := [KEY_D \<mapsto> True]\<rparr>)))
       = 50 + 800 * (1000 / 60) / 1000
   \<and> 1000 / 60 \<le> (150::real) - previousTime (scenario\<lparr>previousTime := 100, g_keys := [KEY_D \<mapsto> True]\<rparr>)
   \<and> imageOffsetX (snd (animate 150 (scenario\<lparr>previousTime := 100, g_keys := [KEY_D \<mapsto> True]\<rparr>)))
       = 50 + 800 * (150 - 100) / 1000"
proof -
  let ?s = "scenario\<lparr>previousTime := 100, g_keys := [KEY_D \<mapsto> True]\<rparr>"
  have running: "animating ?s"
    by (simp add: scenario_def)
  have small: "(105::real) - previousTime ?s < 1000 / 60"
    and large: "1000 / 60 \<le> (150::real) - previousTime ?s"
    by (simp_all add: scenario_def)
  have "animate 105 ?s = request_next_frame (step (1000 / 60) (?s\<lparr>previousTime := 105\<rparr>))"
    using effective_dt_floor [OF running, of 105] small by blast
  then have a: "imageOffsetX (snd (animate 105 ?s)) = 50 + 800 * (1000 / 60) / 1000"
    by (simp add: scenario_def tick_defs)
  have "animate 150 ?s =
          request_next_frame (step (150 - previousTime ?s) (?s\<lparr>previousTime := 150\<rparr>))"
    using effective_dt_floor [OF running, of 150] large by blast
  then have b: "imageOffsetX (snd (animate 150 ?s)) = 50 + 800 * (150 - 100) / 1000"
    by (simp add: scenario_def tick_defs)
  show ?thesis
    using running small large a b by blast
qed

text \<open>
  C8. Starting while already animating changes nothing: no frame is requested, the
  previous timestamp is kept, the flag stays set. Stopping while idle leaves every variable
  as it was and at most removes a pending request from the host's queue; with no request
  pending under the stored handle (as in every idle state the driver produces, see
  \<open>stopAnimation_idle\<close>) it changes nothing at all. Starting from idle sets the flag, sets
  the previous timestamp to 0 and runs one tick at once, with the elapsed time \<open>1000 / 60\<close>.
\<close>

theorem start_stop_idempotent:
  "(animating s \<longrightarrow> startAnimation s = (None, s))
   \<and> (\<not> animating s \<longrightarrow>
        stopAnimation s =
          s\<lparr>frameRequests :=
               removeAll (case animationRequestID s of None \<Rightarrow> 0 | Some i \<Rightarrow> i) (frameRequests s)\<rparr>
        \<and> \<not> animating (stopAnimation s))
   \<and> (\<not> animating s \<and>
        (case animationRequestID s of None \<Rightarrow> 0 | Some i \<Rightarrow> i) \<notin> set (frameRequests s) \<longrightarrow>
        stopAnimation s = s)
   \<and> (\<not> animating s \<longrightarrow>
        startAnimation s =
          request_next_frame (step (1000 / 60) (s\<lparr>animating := True, previousTime := 0\<rparr>))
        \<and> animating (snd (startAnimation s))
        \<and> previousTime (snd (startAnimation s)) = 0)"
proof -
  have again: "animating s \<Longrightarrow> startAnimation s = (None, s)"
    by (simp add: startAnimation_def)
  have stop: "\<not> animating s \<Longrightarrow>
        stopAnimation s =
          s\<lparr>frameRequests :=
               removeAll (case animationRequestID s of None \<Rightarrow> 0 | Some i \<Rightarrow> i) (frameRequests s)\<rparr>"
    by (simp add: stopAnimation_def cancelAnimationFrame_def Let_def)
  have idle: "\<not> animating s \<Longrightarrow> \<not> animating (stopAnimation s)"
    by (simp add: stopAnimation_def cancelAnimationFrame_def Let_def)
  have noop: "\<not> animating s \<Longrightarrow>
        (case animationRequestID s of None \<Rightarrow> 0 | Some i \<Rightarrow> i) \<notin> set (frameRequests s) \<Longrightarrow>
        stopAnimation s = s"
    by (simp add: stop)
  have flags: "\<not> animating s \<Longrightarrow>
        animating (snd (startAnimation s)) \<and> previousTime (snd (startAnimation s)) = 0"
    by (simp add: startAnimation_idle request_next_frame_keeps step_keeps)
  show ?thesis
    using again stop idle noop flags startAnimation_idle by blast
qed

theorem start_stop_idempotent_witness:
  "animating scenario \<and> startAnimation scenario = (None, scenario)
   \<and> \<not> animating (scenario\<lparr>animating := False, frameRequests := []\<rparr>)
   \<and> (case animationRequestID (scenario\<lparr>animating := False, frameRequests := []\<rparr>) of
         None \<Rightarrow> 0 | Some i \<Rightarrow> i) \<notin> set (frameRequests (scenario\<lparr>animating := False, frameRequests := []\<rparr>))
   \<and> stopAnimation (scenario\<lparr>animating := False, frameRequests := []\<rparr>)
       = scenario\<lparr>animating := False, frameRequests := []\<rparr>
   \<and> animating (snd (startAnimation (scenario\<lparr>animating := False, frameRequests := []\<rparr>)))
   \<and> previousTime (snd (startAnimation (scenario\<lparr>animating := False, frameRequests := [], previousTime := 7\<rparr>))) = 0
   \<and> frameRequests (snd (startAnimation (scenario\<lparr>animating := False, frameRequests := []\<rparr>))) = [2]"
proof -
  let ?idle = "scenario\<lparr>animating := False, frameRequests := []\<rparr>"
  have a: "animating scenario" and i: "\<not> animating ?idle"
    and i7: "\<not> animating (?idle\<lparr>previousTime := 7\<rparr>)"
    and h: "(case animationRequestID ?idle of None \<Rightarrow> 0 | Some i \<Rightarrow> i) \<notin> set (frameRequests ?idle)"
    by (simp_all add: scenario_def)
  have "startAnimation ?idle =
          request_next_frame (step (1000 / 60) (?idle\<lparr>animating := True, previousTime := 0\<rparr>))"
    using start_stop_idempotent [of ?idle] i by blast
  then have q: "frameRequests (snd (startAnimation ?idle)) = [2]"
    by (simp add: scenario_def tick_defs)
  have c1: "startAnimation scenario = (None, scenario)"
    using start_stop_idempotent [of scenario] a by blast
  have c2: "stopAnimation ?idle = ?idle"
    using start_stop_idempotent [of ?idle] i h by blast
  have c3: "animating (snd (startAnimation ?idle))"
    using start_stop_idempotent [of ?idle] i by blast
  have c4: "previousTime (snd (startAnimation (?idle\<lparr>previousTime := 7\<rparr>))) = 0"
    using start_stop_idempotent [of "?idle\<lparr>previousTime := 7\<rparr>"] i7 by blast
  show ?thesis
    using a i h c1 c2 c3 c4 q by blast
qed

subsection \<open>Compositor\<close>



text \<open>
  C5. Lens geometry. When \<open>render\<close> draws, the lens is the fourth call: a copy from the
  scaled background whose source rectangle has width \<open>0.937\<close> times the scaled border's
  width and height \<open>0.937\<close> times its height and is centred at
  \<open>(mouse.x + imageOffsetX, mouse.y)\<close>, onto a destination rectangle of the same size
  centred at \<open>(mouse.x, mouse.y)\<close>.
\<close>

theorem lens_geometry:
  assumes "ready s" and "canvas s = Some cv"
  shows "\<exists>fx sx sy sWidth sHeight dx dy dWidth dHeight bx by.
           ctx_calls (snd (render dt s)) = ctx_calls s @
             [SetFillStyle Canvas ''#000'',
              FillRect Canvas 0 0 (width cv) (height cv),
              DrawImage Canvas ForegroundCanvas fx 0,
              DrawImageRect Canvas BackgroundCanvas sx sy sWidth sHeight dx dy dWidth dHeight,
              DrawImage Canvas BorderCanvas bx by]
         \<and> sWidth = 0.937 * width (borderCanvas s)
         \<and> sHeight = 0.937 * height (borderCanvas s)
         \<and> sx + sWidth / 2 = mouse_x s + imageOffsetX s
         \<and> sy + sHeight / 2 = mouse_y s
         \<and> dWidth = sWidth \<and> dHeight = sHeight
         \<and> dx + dWidth / 2 = mouse_x s
         \<and> dy + dHeight / 2 = mouse_y s"
proof -
  let ?sWidth = "width (borderCanvas s) * 0.937"
  let ?sHeight = "height (borderCanvas s) * 0.937"
  let ?sx = "mouse_x s + imageOffsetX s - ?sWidth / 2"
  let ?sy = "mouse_y s - ?sHeight / 2"
  let ?dx = "mouse_x s - ?sWidth / 2"
  let ?bx = "mouse_x s - width (borderCanvas s) / 2"
  let ?by = "mouse_y s - height (borderCanvas s) / 2"
  have "ctx_calls (snd (render dt s)) = ctx_calls s @
             [SetFillStyle Canvas ''#000'',
              FillRect Canvas 0 0 (width cv) (height cv),
              DrawImage Canvas ForegroundCanvas (- imageOffsetX s) 0,
              DrawImageRect Canvas BackgroundCanvas ?sx ?sy ?sWidth ?sHeight ?dx ?sy ?sWidth ?sHeight,
              DrawImage Canvas BorderCanvas ?bx ?by]
         \<and> ?sWidth = 0.937 * width (borderCanvas s)
         \<and> ?sHeight = 0.937 * height (borderCanvas s)
         \<and> ?sx + ?sWidth / 2 = mouse_x s + imageOffsetX s
         \<and> ?sy + ?sHeight / 2 = mouse_y s
         \<and> ?sWidth = ?sWidth \<and> ?sHeight = ?sHeight
         \<and> ?dx + ?sWidth / 2 = mouse_x s
         \<and> ?sy + ?sHeight / 2 = mouse_y s"
    by (simp add: render_ready [OF assms])
  then show ?thesis
    by blast
qed

theorem lens_geometry_witness:
  "ready scenario \<and> canvas scenario = Some \<lparr>width = 800, height = 600\<rparr>
   \<and> mouse_x scenario = 100 \<and> mouse_y scenario = 100 \<and> imageOffsetX scenario = 50
   \<and> borderCanvas scenario = \<lparr>width = 200, height = 150\<rparr>
   \<and> (\<exists>fx sx sy sWidth sHeight dx dy dWidth dHeight bx by.
          ctx_calls (snd (render 16 scenario)) =
            [SetFillStyle Canvas ''#000'',
             FillRect Canvas 0 0 800 600,
             DrawImage Canvas ForegroundCanvas fx 0,
             DrawImageRect Canvas BackgroundCanvas sx sy sWidth sHeight dx dy dWidth dHeight,
             DrawImage Canvas BorderCanvas bx by]
        \<and> sWidth = 187.4 \<and> sHeight = 140.55
        \<and> sx + sWidth / 2 = 150 \<and> sy + sHeight / 2 = 100
        \<and> dWidth = 187.4 \<and> dHeight = 140.55
        \<and> dx + dWidth / 2 = 100 \<and> dy + dHeight / 2 = 100)"
proof -
  have facts: "ready scenario" "canvas scenario = Some \<lparr>width = 800, height = 600\<rparr>"
    "mouse_x scenario = 100" "mouse_y scenario = 100" "imageOffsetX scenario = 50"
    "borderCanvas scenario = \<lparr>width = 200, height = 150\<rparr>" "ctx_calls scenario = []"
    by (simp_all add: scenario_def)
  from lens_geometry [OF facts(1,2), of 16]
  obtain fx sx sy sWidth sHeight dx dy dWidth dHeight bx "by" where
    calls: "ctx_calls (snd (render 16 scenario)) = ctx_calls scenario @
             [SetFillStyle Canvas ''#000'',
              FillRect Canvas 0 0 (width \<lparr>width = 800, height = 600\<rparr>) (height \<lparr>width = 800, height = 600\<rparr>),
              DrawImage Canvas ForegroundCanvas fx 0,
              DrawImageRect Canvas BackgroundCanvas sx sy sWidth sHeight dx dy dWidth dHeight,
              DrawImage Canvas BorderCanvas bx by]"
    and geometry: "sWidth = 0.937 * width (borderCanvas scenario)"
      "sHeight = 0.937 * height (borderCanvas scenario)"
      "sx + sWidth / 2 = mouse_x scenario + imageOffsetX scenario"
      "sy + sHeight / 2 = mouse_y scenario"
      "dWidth = sWidth" "dHeight = sHeight"
      "dx + dWidth / 2 = mouse_x scenario"
      "dy + dHeight / 2 = mouse_y scenario"
    by blast
  have "ctx_calls (snd (render 16 scenario)) =
            [SetFillStyle Canvas ''#000'',
             FillRect Canvas 0 0 800 600,
             DrawImage Canvas ForegroundCanvas fx 0,
             DrawImageRect Canvas BackgroundCanvas sx sy sWidth sHeight dx dy dWidth dHeight,
             DrawImage Canvas BorderCanvas bx by]"
    using calls facts(7) by simp
  moreover have "sWidth = 187.4" "sHeight = 140.55" "sx + sWidth / 2 = 150" "sy + sHeight / 2 = 100"
    "dWidth = 187.4" "dHeight = 140.55" "dx + dWidth / 2 = 100" "dy + dHeight / 2 = 100"
    using geometry facts(3-6) by simp_all
  ultimately show ?thesis
    using facts(1-6) by blast
qed

subsection \<open>Image scaler\<close>

text \<open>
  C6. Scaling. When the viewer is ready, the canvas and the three images are bound and the
  foreground image has a height of at least one pixel (and, as any image, below \<open>2^32\<close>),
  \<open>resizeCanvas\<close> completes. Afterwards the scale is the quotient of the canvas height and
  the foreground image's height. Each dimension of the scaled foreground and background
  is the product of the scale and the source dimension, rounded; each dimension of the
  scaled border is the product of the scale, \<open>1.8\<close> and the source dimension, rounded; this
  for every rounded product that a canvas can hold, that is, up to 2147483647. And the
  scaled foreground is exactly as high as the canvas. Quotient and products are those of
  the script, in double precision.
\<close>

theorem scaling_postconditions:
  assumes "ready s" and "canvas s = Some cv"
    and "foregroundImage s = Some fg" and "backgroundImage s = Some bg"
    and "borderImage s = Some bd"
    and "1 \<le> height fg" and "height fg \<le> 4294967295"
  shows "\<exists>s' cv'. resizeCanvas rect s = (None, s')
         \<and> canvas s' = Some cv'
         \<and> width cv' = dom_dimension 300 (Num (width rect))
         \<and> height cv' = dom_dimension 150 (Num (height rect))
         \<and> imageScale s' = js_div (height cv') (height fg)
         \<and> (canvas_can_hold (js_round (js_mul (imageScale s') (Num (width fg)))) \<longrightarrow>
              Num (width (foregroundCanvas s')) =
                js_round (js_mul (imageScale s') (Num (width fg))))
         \<and> (canvas_can_hold (js_round (js_mul (imageScale s') (Num (height fg)))) \<longrightarrow>
              Num (height (foregroundCanvas s')) =
                js_round (js_mul (imageScale s') (Num (height fg))))
         \<and> (canvas_can_hold (js_round (js_mul (imageScale s') (Num (width bg)))) \<longrightarrow>
              Num (width (backgroundCanvas s')) =
                js_round (js_mul (imageScale s') (Num (width bg))))
         \<and> (canvas_can_hold (js_round (js_mul (imageScale s') (Num (height bg)))) \<longrightarrow>
              Num (height (backgroundCanvas s')) =
                js_round (js_mul (imageScale s') (Num (height bg))))
         \<and> (canvas_can_hold
                (js_round (js_mul (js_mul (imageScale s') (to_double 1.8)) (Num (width bd)))) \<longrightarrow>
              Num (width (borderCanvas s')) =
                js_round (js_mul (js_mul (imageScale s') (to_double 1.8)) (Num (width bd))))
         \<and> (canvas_can_hold
                (js_round (js_mul (js_mul (imageScale s') (to_double 1.8)) (Num (height bd)))) \<longrightarrow>
              Num (height (borderCanvas s')) =
                js_round (js_mul (js_mul (imageScale s') (to_double 1.8)) (Num (height bd))))
         \<and> height (foregroundCanvas s') = height cv'"
proof -
  let ?cv = "cv\<lparr>width := dom_dimension 300 (Num (width rect)),
                  height := dom_dimension 150 (Num (height rect))\<rparr>"
  let ?scale = "js_div (height ?cv) (height fg)"
  let ?s1 = "s\<lparr>canvas := Some ?cv, imageScale := ?scale\<rparr>"
  let ?s2 = "?s1\<lparr>backgroundCanvas := (backgroundCanvas ?s1)
                  \<lparr>width := dom_dimension 300 (js_round (js_mul (imageScale ?s1) (Num (width bg)))),
                   height := dom_dimension 150 (js_round (js_mul (imageScale ?s1) (Num (height bg))))\<rparr>,
               foregroundCanvas := (foregroundCanvas ?s1)
                  \<lparr>width := dom_dimension 300 (js_round (js_mul (imageScale ?s1) (Num (width fg)))),
                   height := dom_dimension 150 (js_round (js_mul (imageScale ?s1) (Num (height fg))))\<rparr>,
               borderCanvas := (borderCanvas ?s1)
                  \<lparr>width := dom_dimension 300
                     (js_round (js_mul (js_mul (imageScale ?s1) (to_double 1.8)) (Num (width bd)))),
                   height := dom_dimension 150
                     (js_round (js_mul (js_mul (imageScale ?s1) (to_double 1.8)) (Num (height bd))))\<rparr>,
               ctx_calls := ctx_calls (snd (resizeImages ?s1))\<rparr>"
  have start: "resizeCanvas rect s = resizeImages ?s1"
    using assms(1-3) by (simp add: resizeCanvas_def Let_def)
  have scaled: "resizeImages ?s1 = (None, ?s2)"
    using resizeImages_bound [of ?s1 bg fg bd] assms(3-5) by simp
  have run: "resizeCanvas rect s = (None, ?s2)"
    using start scaled by simp
  have cv: "canvas ?s2 = Some ?cv" "width ?cv = dom_dimension 300 (Num (width rect))"
    "height ?cv = dom_dimension 150 (Num (height rect))"
    and scale: "imageScale ?s2 = js_div (height ?cv) (height fg)"
    by simp_all
  have fg_w: "canvas_can_hold (js_round (js_mul (imageScale ?s2) (Num (width fg)))) \<longrightarrow>
      Num (width (foregroundCanvas ?s2)) = js_round (js_mul (imageScale ?s2) (Num (width fg)))"
    and fg_h: "canvas_can_hold (js_round (js_mul (imageScale ?s2) (Num (height fg)))) \<longrightarrow>
      Num (height (foregroundCanvas ?s2)) = js_round (js_mul (imageScale ?s2) (Num (height fg)))"
    and bg_w: "canvas_can_hold (js_round (js_mul (imageScale ?s2) (Num (width bg)))) \<longrightarrow>
      Num (width (backgroundCanvas ?s2)) = js_round (js_mul (imageScale ?s2) (Num (width bg)))"
    and bg_h: "canvas_can_hold (js_round (js_mul (imageScale ?s2) (Num (height bg)))) \<longrightarrow>
      Num (height (backgroundCanvas ?s2)) = js_round (js_mul (imageScale ?s2) (Num (height bg)))"
    by (simp_all add: canvas_can_hold_round)
  have bd_w: "canvas_can_hold
        (js_round (js_mul (js_mul (imageScale ?s2) (to_double 1.8)) (Num (width bd)))) \<longrightarrow>
      Num (width (borderCanvas ?s2)) =
        js_round (js_mul (js_mul (imageScale ?s2) (to_double 1.8)) (Num (width bd)))"
    and bd_h: "canvas_can_hold
        (js_round (js_mul (js_mul (imageScale ?s2) (to_double 1.8)) (Num (height bd)))) \<longrightarrow>
      Num (height (borderCanvas ?s2)) =
        js_round (js_mul (js_mul (imageScale ?s2) (to_double 1.8)) (Num (height bd)))"
    by (simp_all add: canvas_can_hold_round)
  obtain n where n: "dom_dimension 150 (Num (height rect)) = of_int n" "0 \<le> n" "n \<le> 2147483647"
    using dom_dimension_range(1) by blast
  have "js_round (js_mul (js_div (of_int n) (height fg)) (Num (height fg))) = Num (of_int n)"
    using scale_round_trip [OF n(2,3) assms(6,7)] .
  then have "height (foregroundCanvas ?s2) = dom_dimension 150 (Num (of_int n))"
    using n(1) by simp
  then have same: "height (foregroundCanvas ?s2) = height ?cv"
    using n dom_dimension_whole [of n 150] by simp
  show ?thesis
    using run cv scale fg_w fg_h bg_w bg_h bd_w bd_h same by blast
qed

theorem scaling_postconditions_witness:
  "ready (scenario\<lparr>backgroundImage := Some \<lparr>width = 1920, height = 768\<rparr>,
                    foregroundImage := Some \<lparr>width = 1920, height = 768\<rparr>\<rparr>)
   \<and> (1::real) \<le> height \<lparr>width = 1920, height = 768\<rparr>
   \<and> height \<lparr>width = 1920, height = 768\<rparr> \<le> (4294967295::real)
   \<and> (\<exists>s'. resizeCanvas \<lparr>width = 1024.7, height = 389.5\<rparr>
              (scenario\<lparr>backgroundImage := Some \<lparr>width = 1920, height = 768\<rparr>,
                        foregroundImage := Some \<lparr>width = 1920, height = 768\<rparr>\<rparr>) = (None, s')
          \<and> canvas s' = Some \<lparr>width = 1024, height = 389\<rparr>
          \<and> imageScale s' = Num (4562240247518549 / 9007199254740992)
          \<and> width (foregroundCanvas s') = 972 \<and> height (foregroundCanvas s') = 389
          \<and> width (backgroundCanvas s') = 972 \<and> height (backgroundCanvas s') = 389
          \<and> width (borderCanvas s') = 253 \<and> height (borderCanvas s') = 190)"
proof -
  let ?img = "\<lparr>width = 1920, height = 768 :: real\<rparr>"
  let ?s = "scenario\<lparr>backgroundImage := Some ?img, foregroundImage := Some ?img\<rparr>"
  let ?k = "Num (4562240247518549 / 9007199254740992)"
  have facts: "ready ?s" "canvas ?s = Some \<lparr>width = 800, height = 600\<rparr>"
    "foregroundImage ?s = Some ?img" "backgroundImage ?s = Some ?img"
    "borderImage ?s = Some \<lparr>width = 278, height = 208\<rparr>"
    "1 \<le> height ?img" "height ?img \<le> 4294967295"
    by (simp_all add: scenario_def)
  have stored: "dom_dimension 300 (Num 1024.7) = 1024" "dom_dimension 150 (Num 389.5) = 389"
    by (simp_all add: dom_dimension_def to_uint32_def)
  have k: "js_div 389 768 = ?k"
    by (simp add: js_div_def double_eval)
  have products: "js_round (js_mul ?k (Num 1920)) = Num 972"
    "js_round (js_mul ?k (Num 768)) = Num 389"
    "js_round (js_mul (js_mul ?k (to_double 1.8)) (Num 278)) = Num 253"
    "js_round (js_mul (js_mul ?k (to_double 1.8)) (Num 208)) = Num 190"
    by (simp_all add: double_eval round_def)
  from scaling_postconditions [OF facts, of "\<lparr>width = 1024.7, height = 389.5\<rparr>"]
  obtain s' cv' where run: "resizeCanvas \<lparr>width = 1024.7, height = 389.5\<rparr> ?s = (None, s')"
    and cv: "canvas s' = Some cv'" "width cv' = dom_dimension 300 (Num 1024.7)"
      "height cv' = dom_dimension 150 (Num 389.5)"
    and scale: "imageScale s' = js_div (height cv') 768"
    and dims:
      "canvas_can_hold (js_round (js_mul (imageScale s') (Num 1920))) \<longrightarrow>
         Num (width (foregroundCanvas s')) = js_round (js_mul (imageScale s') (Num 1920))"
      "canvas_can_hold (js_round (js_mul (imageScale s') (Num 768))) \<longrightarrow>
         Num (height (foregroundCanvas s')) = js_round (js_mul (imageScale s') (Num 768))"
      "canvas_can_hold (js_round (js_mul (imageScale s') (Num 1920))) \<longrightarrow>
         Num (width (backgroundCanvas s')) = js_round (js_mul (imageScale s') (Num 1920))"
      "canvas_can_hold (js_round (js_mul (imageScale s') (Num 768))) \<longrightarrow>
         Num (height (backgroundCanvas s')) = js_round (js_mul (imageScale s') (Num 768))"
      "canvas_can_hold (js_round (js_mul (js_mul (imageScale s') (to_double 1.8)) (Num 278))) \<longrightarrow>
         Num (width (borderCanvas s')) =
           js_round (js_mul (js_mul (imageScale s') (to_double 1.8)) (Num 278))"
      "canvas_can_hold (js_round (js_mul (js_mul (imageScale s') (to_double 1.8)) (Num 208))) \<longrightarrow>
         Num (height (borderCanvas s')) =
           js_round (js_mul (js_mul (imageScale s') (to_double 1.8)) (Num 208))"
    by auto
  have "cv' = \<lparr>width = 1024, height = 389\<rparr>"
    using cv(2,3) stored by (cases cv') simp
  moreover have s: "imageScale s' = ?k"
    using scale cv(3) stored k by simp
  moreover have "width (foregroundCanvas s') = 972" "height (foregroundCanvas s') = 389"
    "width (backgroundCanvas s') = 972" "height (backgroundCanvas s') = 389"
    "width (borderCanvas s') = 253" "height (borderCanvas s') = 190"
    using dims unfolding s products by (simp_all add: canvas_can_hold_def)
  ultimately show ?thesis
    using facts(1,6,7) run cv(1) by blast
qed

end
